theory Spec2Isabelle
  imports Main "HOL-Library.Word" "HOL-Library.Finite_Map"
begin

section \<open>Data model of package jsonpatcher\<close>

text \<open>
  Byte slices that hold JSON text (\<^verbatim>\<open>[]byte\<close>) are strings: an Isabelle character is a
  byte. \<^verbatim>\<open>core.EntityID\<close> is a string type and \<^verbatim>\<open>ds.Key\<close> is a path string.
  \<^verbatim>\<open>time.Time\<close> is represented by its \<^verbatim>\<open>UnixNano\<close> reading, an \<^verbatim>\<open>int64\<close>: it is the
  only view of a timestamp the package takes.
\<close>

type_synonym bytes = string
type_synonym EntityID = string
type_synonym Key = string
type_synonym UnixNano = "64 word"

text \<open>\<^verbatim>\<open>type operationType int\<close> with the constants \<^verbatim>\<open>create\<close>, \<^verbatim>\<open>save\<close>, \<^verbatim>\<open>delete\<close> (iota).\<close>

type_synonym operationType = int

definition create :: operationType where "create = 0"
definition save :: operationType where "save = 1"
definition delete :: operationType where "delete = 2"

text \<open>The errors of the package and of its collaborators, as values.\<close>

datatype error =
    errSavingNonExistentInstance
  | errCantCreateExistingInstance
  | errUnknownOperation
  | errEventUnrecognized
  | errReducingCreate error
  | errReducingSave error
  | ErrNotFound
  | ExternalError string

record operation =
  Type :: operationType
  op_EntityID :: EntityID
  JSONPatch :: bytes

record patchEvent =
  Timestamp :: UnixNano
  ID :: EntityID
  ModelName :: string
  Patch :: operation

text \<open>
  \<^verbatim>\<open>core.Event\<close> is an interface. A value of it is a \<^verbatim>\<open>patchEvent\<close> or an event of some
  other implementation, of which only the model and entity are known.
\<close>

datatype Event = PatchEvent patchEvent | ForeignEvent string EntityID

definition EntityID :: "patchEvent \<Rightarrow> EntityID" where
  "EntityID je = ID je"

definition Model :: "patchEvent \<Rightarrow> string" where
  "Model je = ModelName je"

text \<open>\<^verbatim>\<open>core.ActionType\<close> and \<^verbatim>\<open>core.ReduceAction\<close>, from their uses in the package.\<close>

datatype ActionType = core_Create | core_Save | core_Delete | core_Other int

record ReduceAction =
  r_Type :: ActionType
  r_Model :: string
  r_EntityID :: EntityID

section \<open>The transactional datastore\<close>

text \<open>
  Modelled from the spec: the transactional key-value store (\<^verbatim>\<open>ds.TxnDatastore\<close>) is an
  external collaborator, not part of the sources. Its contract is the one of the spec's
  section 6: a transaction reads and writes a private view of the entries,
  \<^verbatim>\<open>Commit\<close> publishes the view atomically, \<^verbatim>\<open>Discard\<close> drops it, \<^verbatim>\<open>Get\<close> of an absent key
  is \<^verbatim>\<open>ErrNotFound\<close> and \<^verbatim>\<open>Delete\<close> of an absent key succeeds. Every operation may also
  fail on its own: \<open>fault\<close> says which operations of this store fail, and with what.
\<close>

datatype StoreOp =
  OpNewTransaction | OpHas Key | OpGet Key | OpPut Key | OpDelete Key | OpCommit

record TxnDatastore =
  entries :: "Key \<rightharpoonup> bytes"
  fault :: "StoreOp \<Rightarrow> error option"

record Txn =
  view :: "Key \<rightharpoonup> bytes"
  txn_fault :: "StoreOp \<Rightarrow> error option"

definition NewTransaction :: "TxnDatastore \<Rightarrow> error + Txn" where
  "NewTransaction ds =
     (case fault ds OpNewTransaction of
        Some err \<Rightarrow> Inl err
      | None \<Rightarrow> Inr \<lparr>view = entries ds, txn_fault = fault ds\<rparr>)"

definition Has :: "Txn \<Rightarrow> Key \<Rightarrow> error + bool" where
  "Has txn key =
     (case txn_fault txn (OpHas key) of
        Some err \<Rightarrow> Inl err
      | None \<Rightarrow> Inr (view txn key \<noteq> None))"

definition Get :: "Txn \<Rightarrow> Key \<Rightarrow> error + bytes" where
  "Get txn key =
     (case txn_fault txn (OpGet key) of
        Some err \<Rightarrow> Inl err
      | None \<Rightarrow> (case view txn key of None \<Rightarrow> Inl ErrNotFound | Some v \<Rightarrow> Inr v))"

definition Put :: "Txn \<Rightarrow> Key \<Rightarrow> bytes \<Rightarrow> error + Txn" where
  "Put txn key v =
     (case txn_fault txn (OpPut key) of
        Some err \<Rightarrow> Inl err
      | None \<Rightarrow> Inr (txn\<lparr>view := (view txn)(key \<mapsto> v)\<rparr>))"

definition Delete :: "Txn \<Rightarrow> Key \<Rightarrow> error + Txn" where
  "Delete txn key =
     (case txn_fault txn (OpDelete key) of
        Some err \<Rightarrow> Inl err
      | None \<Rightarrow> Inr (txn\<lparr>view := (view txn)(key := None)\<rparr>))"

definition Commit :: "TxnDatastore \<Rightarrow> Txn \<Rightarrow> error + TxnDatastore" where
  "Commit ds txn =
     (case txn_fault txn OpCommit of
        Some err \<Rightarrow> Inl err
      | None \<Rightarrow> Inr (ds\<lparr>entries := view txn\<rparr>))"

definition Discard :: "TxnDatastore \<Rightarrow> Txn \<Rightarrow> TxnDatastore" where
  "Discard ds txn = ds"

text \<open>
  Modelled from the spec: the store key is \<^verbatim>\<open>prefix / ModelName / EntityID\<close>
  (\<^verbatim>\<open>ds.Key.ChildString\<close> is not part of the sources).
\<close>

definition ChildString :: "Key \<Rightarrow> string \<Rightarrow> Key" where
  "ChildString k s = k @ ''/'' @ s"

section \<open>The libraries the package calls\<close>

text \<open>
  \<^verbatim>\<open>json.Marshal\<close>, \<^verbatim>\<open>jsonpatch.CreateMergePatch\<close>, \<^verbatim>\<open>jsonpatch.MergePatch\<close>,
  \<^verbatim>\<open>cbornode.WrapObject\<close> and \<^verbatim>\<open>cbornode.DecodeInto\<close> are third-party code. The package's
  functions take them as parameters, bundled in a record. The node that \<^verbatim>\<open>WrapObject\<close>
  returns is represented by its bytes, the serialized envelope. A dynamic Go value
  (\<^verbatim>\<open>interface{}\<close>) is nil, a \<^verbatim>\<open>*string\<close> (possibly a nil pointer), a \<^verbatim>\<open>[]byte\<close>, or some
  other value, known by a number.
\<close>

datatype iface = INil | IStringPtr "string option" | IBytes bytes | IOther nat

record recordEvents =
  Patches :: "patchEvent list"

record Deps =
  Marshal :: "iface \<Rightarrow> error + bytes"
  CreateMergePatch :: "bytes \<Rightarrow> bytes \<Rightarrow> error + bytes"
  MergePatch :: "bytes \<Rightarrow> bytes \<Rightarrow> error + bytes"
  WrapObject :: "recordEvents \<Rightarrow> error + bytes"
  DecodeInto :: "bytes \<Rightarrow> error + recordEvents"

section \<open>Reduce\<close>

text \<open>The body of the loop of \<^verbatim>\<open>Reduce\<close>: one event against the open transaction.\<close>

definition reduceEvent :: "Deps \<Rightarrow> Txn \<Rightarrow> Key \<Rightarrow> Event \<Rightarrow> error + (Txn \<times> ReduceAction)" where
  "reduceEvent d txn baseKey e =
     (case e of
        ForeignEvent _ _ \<Rightarrow> Inl errEventUnrecognized
      | PatchEvent je \<Rightarrow>
          (let key = ChildString (ChildString baseKey (Model je)) (EntityID je) in
           if Type (Patch je) = create then
             (case Has txn key of
                Inl err \<Rightarrow> Inl err
              | Inr exist \<Rightarrow>
                  if exist then Inl errCantCreateExistingInstance
                  else
                    (case Put txn key (JSONPatch (Patch je)) of
                       Inl err \<Rightarrow> Inl (errReducingCreate err)
                     | Inr txn' \<Rightarrow>
                         Inr (txn', \<lparr>r_Type = core_Create, r_Model = Model je,
                                     r_EntityID = EntityID je\<rparr>)))
           else if Type (Patch je) = save then
             (case Get txn key of
                Inl err \<Rightarrow>
                  if err = ErrNotFound then Inl errSavingNonExistentInstance else Inl err
              | Inr val \<Rightarrow>
                  (case MergePatch d val (JSONPatch (Patch je)) of
                     Inl err \<Rightarrow> Inl (errReducingSave err)
                   | Inr patchedValue \<Rightarrow>
                       (case Put txn key patchedValue of
                          Inl err \<Rightarrow> Inl err
                        | Inr txn' \<Rightarrow>
                            Inr (txn', \<lparr>r_Type = core_Save, r_Model = Model je,
                                        r_EntityID = EntityID je\<rparr>))))
           else if Type (Patch je) = delete then
             (case Delete txn key of
                Inl err \<Rightarrow> Inl err
              | Inr txn' \<Rightarrow>
                  Inr (txn', \<lparr>r_Type = core_Delete, r_Model = Model je,
                              r_EntityID = EntityID je\<rparr>))
           else Inl errUnknownOperation))"

text \<open>The loop: events in order, stopping at the first error.\<close>

fun reduceLoop :: "Deps \<Rightarrow> Txn \<Rightarrow> Key \<Rightarrow> Event list \<Rightarrow> error + (Txn \<times> ReduceAction list)" where
  "reduceLoop d txn baseKey [] = Inr (txn, [])"
| "reduceLoop d txn baseKey (e # es) =
     (case reduceEvent d txn baseKey e of
        Inl err \<Rightarrow> Inl err
      | Inr (txn', a) \<Rightarrow>
          (case reduceLoop d txn' baseKey es of
             Inl err \<Rightarrow> Inl err
           | Inr (txn'', as) \<Rightarrow> Inr (txn'', a # as)))"

text \<open>
  \<^verbatim>\<open>Reduce\<close> returns the datastore as the call leaves it, and the error or the actions.
  The deferred \<^verbatim>\<open>txn.Discard()\<close> runs on every return that follows the opening of the
  transaction, also after the commit.
\<close>

definition Reduce ::
  "Deps \<Rightarrow> Event list \<Rightarrow> TxnDatastore \<Rightarrow> Key \<Rightarrow> TxnDatastore \<times> (error + ReduceAction list)" where
  "Reduce d events datastore baseKey =
     (case NewTransaction datastore of
        Inl err \<Rightarrow> (datastore, Inl err)
      | Inr txn \<Rightarrow>
          (case reduceLoop d txn baseKey events of
             Inl err \<Rightarrow> (Discard datastore txn, Inl err)
           | Inr (txn', actions) \<Rightarrow>
               (case Commit datastore txn' of
                  Inl err \<Rightarrow> (Discard datastore txn', Inl err)
                | Inr datastore' \<Rightarrow> (Discard datastore' txn', Inr actions))))"

section \<open>Create and EventsFromBytes\<close>

text \<open>
  \<^verbatim>\<open>core.Action\<close>, from its uses in the package. A Go function either returns a value,
  returns an error, or panics: \<^verbatim>\<open>Create\<close> and the translators it calls can do all three.
  The receiver \<^verbatim>\<open>jp\<close> is represented by its only field, \<^verbatim>\<open>jsonMode\<close>.
\<close>

record Action =
  a_Type :: ActionType
  a_EntityID :: EntityID
  a_ModelName :: string
  Previous :: iface
  Current :: iface

datatype 'a outcome = Ok 'a | Err error | Panic string

definition createEvent :: "Deps \<Rightarrow> EntityID \<Rightarrow> iface \<Rightarrow> bool \<Rightarrow> operation outcome" where
  "createEvent d id' v jsonMode =
     (if jsonMode then
        (case v of
           IStringPtr (Some strjson) \<Rightarrow>
             Ok \<lparr>Type = create, op_EntityID = id', JSONPatch = strjson\<rparr>
         | IStringPtr None \<Rightarrow> Panic ''invalid memory address or nil pointer dereference''
         | _ \<Rightarrow> Panic ''interface conversion'')
      else
        (case Marshal d v of
           Inl err \<Rightarrow> Err err
         | Inr opBytes \<Rightarrow> Ok \<lparr>Type = create, op_EntityID = id', JSONPatch = opBytes\<rparr>))"

definition saveEvent :: "Deps \<Rightarrow> EntityID \<Rightarrow> iface \<Rightarrow> iface \<Rightarrow> bool \<Rightarrow> operation outcome" where
  "saveEvent d id' prev curr' jsonMode =
     (let patch = (\<lambda>prevBytes currBytes.
            case CreateMergePatch d prevBytes currBytes of
              Inl err \<Rightarrow> Err err
            | Inr jsonPatch \<Rightarrow> Ok \<lparr>Type = save, op_EntityID = id', JSONPatch = jsonPatch\<rparr>)
      in
      if jsonMode then
        (case curr' of
           IStringPtr strCurrJson \<Rightarrow>
             (case prev of
                IBytes prevBytes \<Rightarrow>
                  (case strCurrJson of
                     None \<Rightarrow> Panic ''invalid memory address or nil pointer dereference''
                   | Some currBytes \<Rightarrow> patch prevBytes currBytes)
              | _ \<Rightarrow> Panic ''interface conversion'')
         | _ \<Rightarrow> Panic ''interface conversion'')
      else
        (case Marshal d prev of
           Inl err \<Rightarrow> Err err
         | Inr prevBytes \<Rightarrow>
             (case Marshal d curr' of
                Inl err \<Rightarrow> Err err
              | Inr currBytes \<Rightarrow> patch prevBytes currBytes)))"

definition deleteEvent :: "EntityID \<Rightarrow> operation outcome" where
  "deleteEvent id' = Ok \<lparr>Type = delete, op_EntityID = id', JSONPatch = []\<rparr>"

text \<open>The \<^verbatim>\<open>switch\<close> of \<^verbatim>\<open>Create\<close> on the type of one action.\<close>

definition translate :: "Deps \<Rightarrow> bool \<Rightarrow> Action \<Rightarrow> operation outcome" where
  "translate d jsonMode a =
     (case a_Type a of
        core_Create \<Rightarrow> createEvent d (a_EntityID a) (Current a) jsonMode
      | core_Save \<Rightarrow> saveEvent d (a_EntityID a) (Previous a) (Current a) jsonMode
      | core_Delete \<Rightarrow> deleteEvent (a_EntityID a)
      | core_Other _ \<Rightarrow> Panic ''unkown action type'')"

text \<open>
  The loop of \<^verbatim>\<open>Create\<close>, from index \<open>i\<close>: \<open>now i\<close> is what \<^verbatim>\<open>time.Now()\<close> reads in
  the \<open>i\<close>-th round.
\<close>

fun createLoop :: "Deps \<Rightarrow> bool \<Rightarrow> (nat \<Rightarrow> UnixNano) \<Rightarrow> nat \<Rightarrow> Action list \<Rightarrow> patchEvent list outcome" where
  "createLoop d jsonMode now i [] = Ok []"
| "createLoop d jsonMode now i (a # as) =
     (case translate d jsonMode a of
        Panic msg \<Rightarrow> Panic msg
      | Err err \<Rightarrow> Err err
      | Ok op \<Rightarrow>
          (case createLoop d jsonMode now (Suc i) as of
             Panic msg \<Rightarrow> Panic msg
           | Err err \<Rightarrow> Err err
           | Ok patches \<Rightarrow>
               Ok (\<lparr>Timestamp = now i, ID = a_EntityID a, ModelName = a_ModelName a,
                     Patch = op\<rparr> # patches)))"

definition Create ::
  "Deps \<Rightarrow> bool \<Rightarrow> (nat \<Rightarrow> UnixNano) \<Rightarrow> Action list \<Rightarrow> (Event list \<times> bytes) outcome" where
  "Create d jsonMode now actions =
     (case createLoop d jsonMode now 0 actions of
        Panic msg \<Rightarrow> Panic msg
      | Err err \<Rightarrow> Err err
      | Ok patches \<Rightarrow>
          (case WrapObject d \<lparr>Patches = patches\<rparr> of
             Inl err \<Rightarrow> Err err
           | Inr n \<Rightarrow> Ok (map PatchEvent patches, n)))"

text \<open>Whether a call handed an error back to its caller.\<close>

definition returnsError :: "'a outcome \<Rightarrow> bool" where
  "returnsError r = (case r of Err err \<Rightarrow> True | _ \<Rightarrow> False)"

definition EventsFromBytes :: "Deps \<Rightarrow> bytes \<Rightarrow> error + Event list" where
  "EventsFromBytes d data =
     (case DecodeInto d data of
        Inl err \<Rightarrow> Inl err
      | Inr revents \<Rightarrow> Inr (map PatchEvent (Patches revents)))"

section \<open>Time\<close>

text \<open>
  \<^verbatim>\<open>binary.Write\<close> of an \<^verbatim>\<open>int64\<close> in \<^verbatim>\<open>binary.BigEndian\<close> writes the eight bytes of the
  value as an unsigned 64-bit number, the most significant first.
\<close>

definition Time :: "patchEvent \<Rightarrow> 8 word list" where
  "Time je =
     (let t = Timestamp je in
      [ucast (drop_bit 56 t), ucast (drop_bit 48 t), ucast (drop_bit 40 t),
       ucast (drop_bit 32 t), ucast (drop_bit 24 t), ucast (drop_bit 16 t),
       ucast (drop_bit 8 t), ucast t])"

text \<open>
  What the claims about \<^verbatim>\<open>Time\<close> speak of: the number a byte string denotes in big-endian
  order, and the lexicographic order on byte strings (bytes compared unsigned).
\<close>

definition bigEndianValue :: "8 word list \<Rightarrow> nat" where
  "bigEndianValue bs = foldl (\<lambda>acc b. 256 * acc + unat b) 0 bs"

fun bytesLessEq :: "8 word list \<Rightarrow> 8 word list \<Rightarrow> bool" where
  "bytesLessEq [] ys = True"
| "bytesLessEq (x # xs) [] = False"
| "bytesLessEq (x # xs) (y # ys) = (x < y \<or> (x = y \<and> bytesLessEq xs ys))"

text \<open>The \<open>k\<close> low-order bytes of a number, the most significant first.\<close>

fun beBytes :: "nat \<Rightarrow> nat \<Rightarrow> 8 word list" where
  "beBytes 0 n = []"
| "beBytes (Suc k) n = of_nat (n div 256 ^ k) # beBytes k n"

section \<open>Outcome records\<close>

text \<open>
  What the spec asks of the outcome record of an event: the event's kind, model name and
  entity.
\<close>

definition kindOf :: "operationType \<Rightarrow> ActionType \<Rightarrow> bool" where
  "kindOf t k =
     ((t = create \<and> k = core_Create) \<or> (t = save \<and> k = core_Save) \<or>
      (t = delete \<and> k = core_Delete))"

fun outcomeFor :: "Event \<Rightarrow> ReduceAction \<Rightarrow> bool" where
  "outcomeFor (PatchEvent je) a =
     (kindOf (Type (Patch je)) (r_Type a) \<and> r_Model a = ModelName je \<and> r_EntityID a = ID je)"
| "outcomeFor (ForeignEvent m i) a = False"


section \<open>The merge-patch engine\<close>

text \<open>
  Modelled from the spec: \<^verbatim>\<open>jsonpatch.CreateMergePatch\<close> and \<^verbatim>\<open>jsonpatch.MergePatch\<close> are
  third-party code, missing from the sources. \<open>Diff\<close> and \<open>Apply\<close> follow section 4.1 of the
  spec (JSON merge patch, RFC 7396) on JSON values. An object is a finite map from field
  names to values, so that equality of values is structural and blind to field order.
\<close>

datatype json =
  JNull | JBool bool | JNum int | JStr string | JArr "json list" | JObj "(string, json) fmap"

text \<open>The fields of the base of a patch: a base that is absent or no object has none.\<close>

definition fieldsOf :: "json option \<Rightarrow> (string, json) fmap" where
  "fieldsOf base = (case base of Some (JObj bm) \<Rightarrow> bm | _ \<Rightarrow> fmempty)"

text \<open>
  \<open>applyFields pm bm\<close>: the fields of the base \<open>bm\<close> that the patch does not mention are
  retained; a field the patch maps to null is removed; any other field of the patch is
  set to the patch's value applied to the base's value of that field. Each field of \<open>pm\<close>
  carries the patch's value and the function that applies it.
\<close>

definition applyFields ::
  "(string, json \<times> (json option \<Rightarrow> json)) fmap \<Rightarrow> (string, json) fmap \<Rightarrow> (string, json) fmap" where
  "applyFields pm bm =
     fmadd (fmfilter (\<lambda>k. fmlookup pm k = None) bm)
       (fmmap_keys (\<lambda>k (v, f). f (fmlookup bm k))
          (fmfilter (\<lambda>k. map_option fst (fmlookup pm k) \<noteq> Some JNull) pm))"

primrec applyPatch :: "json \<Rightarrow> json option \<Rightarrow> json" where
  "applyPatch JNull = (\<lambda>base. JNull)"
| "applyPatch (JBool b) = (\<lambda>base. JBool b)"
| "applyPatch (JNum n) = (\<lambda>base. JNum n)"
| "applyPatch (JStr s) = (\<lambda>base. JStr s)"
| "applyPatch (JArr xs) = (\<lambda>base. JArr xs)"
| "applyPatch (JObj pm) =
     (\<lambda>base. JObj (applyFields (fmmap (\<lambda>v. (v, applyPatch v)) pm) (fieldsOf base)))"

definition Apply :: "json \<Rightarrow> json \<Rightarrow> json" where
  "Apply base patch = applyPatch patch (Some base)"

text \<open>
  \<open>diffFields pm cm\<close>: a field of the previous object \<open>pm\<close> that the current object \<open>cm\<close>
  lacks is mapped to null; a field of \<open>cm\<close> that \<open>pm\<close> lacks, or has with another value, is
  mapped to the diff of the two values; an unchanged field is omitted. Each field of \<open>pm\<close>
  carries the previous value and the function that diffs against it.
\<close>

definition diffFields ::
  "(string, json \<times> (json \<Rightarrow> json)) fmap \<Rightarrow> (string, json) fmap \<Rightarrow> (string, json) fmap" where
  "diffFields pm cm =
     fmadd (fmmap (\<lambda>_. JNull) (fmfilter (\<lambda>k. fmlookup cm k = None) pm))
       (fmmap_keys (\<lambda>k c. case fmlookup pm k of None \<Rightarrow> c | Some (p, f) \<Rightarrow> f c)
          (fmfilter (\<lambda>k. map_option fst (fmlookup pm k) \<noteq> fmlookup cm k) cm))"

primrec diffFrom :: "json \<Rightarrow> json \<Rightarrow> json" where
  "diffFrom JNull = (\<lambda>c. c)"
| "diffFrom (JBool b) = (\<lambda>c. c)"
| "diffFrom (JNum n) = (\<lambda>c. c)"
| "diffFrom (JStr s) = (\<lambda>c. c)"
| "diffFrom (JArr xs) = (\<lambda>c. c)"
| "diffFrom (JObj pm) =
     (\<lambda>c. case c of
        JObj cm \<Rightarrow> JObj (diffFields (fmmap (\<lambda>p. (p, diffFrom p)) pm) cm)
      | _ \<Rightarrow> c)"

definition Diff :: "json \<Rightarrow> json \<Rightarrow> json" where
  "Diff previous current = diffFrom previous current"

text \<open>A value that holds no null: neither itself, nor in a field, nor in an array.\<close>

primrec nullFree :: "json \<Rightarrow> bool" where
  "nullFree JNull = False"
| "nullFree (JBool b) = True"
| "nullFree (JNum n) = True"
| "nullFree (JStr s) = True"
| "nullFree (JArr xs) = list_all id (map nullFree xs)"
| "nullFree (JObj m) = fmpred (\<lambda>_ b. b) (fmmap nullFree m)"

section \<open>Examples\<close>

text \<open>
  An instance of the libraries for the examples. It knows the documents of the spec's
  scenario B and rejects every other one.
\<close>

definition exampleDeps :: Deps where
  \<open>exampleDeps =
     \<lparr>Marshal = (\<lambda>v. case v of INil \<Rightarrow> Inr ''null''
                      | _ \<Rightarrow> Inl (ExternalError ''json: unsupported type'')),
      CreateMergePatch = (\<lambda>prev curr.
         if prev = ''{"a":1,"b":2}'' \<and> curr = ''{"a":1,"c":3}''
         then Inr ''{"b":null,"c":3}''
         else Inl (ExternalError ''Invalid JSON Document'')),
      MergePatch = (\<lambda>doc patch.
         if doc = ''{"a":1,"b":2}'' \<and> patch = ''{"b":null,"c":3}''
         then Inr ''{"a":1,"c":3}''
         else Inl (ExternalError ''Invalid JSON Document'')),
      WrapObject = (\<lambda>revents. Inr (concat (map (\<lambda>pe. JSONPatch (Patch pe)) (Patches revents)))),
      DecodeInto = (\<lambda>data. Inl (ExternalError ''cbor: malformed input''))\<rparr>\<close>

text \<open>A datastore with the given entries, none of whose operations fails on its own.\<close>

definition workingStore :: "(Key \<times> bytes) list \<Rightarrow> TxnDatastore" where
  "workingStore kvs = \<lparr>entries = map_of kvs, fault = (\<lambda>op. None)\<rparr>"

definition eventOf :: "operationType \<Rightarrow> string \<Rightarrow> EntityID \<Rightarrow> bytes \<Rightarrow> Event" where
  "eventOf t model id' payload =
     PatchEvent \<lparr>Timestamp = 0, ID = id', ModelName = model,
                 Patch = \<lparr>Type = t, op_EntityID = id', JSONPatch = payload\<rparr>\<rparr>"

text \<open>An action, and a clock that reads \<open>i\<close> nanoseconds in the \<open>i\<close>-th round.\<close>

definition actionOf :: "ActionType \<Rightarrow> string \<Rightarrow> EntityID \<Rightarrow> iface \<Rightarrow> iface \<Rightarrow> Action" where
  "actionOf t model id' prev curr' =
     \<lparr>a_Type = t, a_EntityID = id', a_ModelName = model, Previous = prev, Current = curr'\<rparr>"

definition fixedClock :: "nat \<Rightarrow> UnixNano" where
  "fixedClock i = of_nat i"

section \<open>Properties of the loop of Reduce\<close>

lemma NewTransaction_Inr:
  "NewTransaction datastore = Inr txn0 \<Longrightarrow> txn_fault txn0 = fault datastore"
  by (auto simp: NewTransaction_def split: option.splits)

lemma reduceEvent_txn_fault:
  "reduceEvent d txn baseKey e = Inr (txn', a) \<Longrightarrow> txn_fault txn' = txn_fault txn"
  by (auto simp: reduceEvent_def Let_def Has_def Get_def Put_def Delete_def
      split: Event.splits sum.splits if_splits option.splits)

lemma reduceLoop_txn_fault:
  "reduceLoop d txn baseKey es = Inr (txn', as) \<Longrightarrow> txn_fault txn' = txn_fault txn"
proof (induction es arbitrary: txn as)
  case Nil
  then show ?case by simp
next
  case (Cons e es)
  then show ?case
    by (auto split: sum.splits prod.splits dest: reduceEvent_txn_fault)
qed

lemma reduceLoop_append:
  "reduceLoop d txn baseKey (xs @ ys) =
     (case reduceLoop d txn baseKey xs of
        Inl err \<Rightarrow> Inl err
      | Inr (txn', as) \<Rightarrow>
          (case reduceLoop d txn' baseKey ys of
             Inl err \<Rightarrow> Inl err
           | Inr (txn'', bs) \<Rightarrow> Inr (txn'', as @ bs)))"
  by (induction xs arbitrary: txn) (auto split: sum.splits prod.splits)

lemma reduceLoop_snoc:
  "reduceLoop d txn0 baseKey pre = Inr (txn, acts) \<Longrightarrow>
   reduceLoop d txn0 baseKey (pre @ e # post) =
     (case reduceEvent d txn baseKey e of
        Inl err \<Rightarrow> Inl err
      | Inr (txn', a) \<Rightarrow>
          (case reduceLoop d txn' baseKey post of
             Inl err \<Rightarrow> Inl err
           | Inr (txn'', bs) \<Rightarrow> Inr (txn'', acts @ a # bs)))"
  by (simp add: reduceLoop_append split: sum.splits prod.splits)

lemma reduceEvent_outcome:
  "reduceEvent d txn baseKey e = Inr (txn', a) \<Longrightarrow> outcomeFor e a"
  by (auto simp: reduceEvent_def Let_def kindOf_def Model_def EntityID_def
      split: Event.splits sum.splits if_splits)

lemma reduceLoop_outcomes:
  "reduceLoop d txn baseKey es = Inr (txn', as) \<Longrightarrow> list_all2 outcomeFor es as"
proof (induction es arbitrary: txn as)
  case Nil
  then show ?case by simp
next
  case (Cons e es)
  then show ?case
    by (auto split: sum.splits prod.splits dest: reduceEvent_outcome)
qed

text \<open>The evaluation rules of the examples.\<close>

lemmas example_defs =
  Reduce_def NewTransaction_def Commit_def Discard_def reduceEvent_def Has_def Get_def Put_def Delete_def
  ChildString_def Model_def EntityID_def create_def save_def delete_def
  exampleDeps_def workingStore_def eventOf_def Let_def

section \<open>Rollback\<close>

text \<open>
  C1. If \<^verbatim>\<open>Reduce\<close> fails, on whichever event and after however many applied ones, the
  datastore after the call is the datastore before it, and the result is the error alone.
\<close>

theorem Reduce_error_rolls_back:
  "snd (Reduce d events datastore baseKey) = Inl err \<Longrightarrow>
     Reduce d events datastore baseKey = (datastore, Inl err)"
  by (auto simp: Reduce_def Discard_def split: sum.splits prod.splits)

text \<open>
  Scenario E of the spec: a create of A followed by a save of the missing B fails, and A is
  not in the store afterwards.
\<close>

theorem Reduce_error_rolls_back_witness:
  \<open>Reduce exampleDeps
     [eventOf create ''user'' ''A'' ''{"x":1}'', eventOf save ''user'' ''B'' ''{"x":2}'']
     (workingStore []) ''model''
   = (workingStore [], Inl errSavingNonExistentInstance) \<and>
   entries (fst (Reduce exampleDeps
     [eventOf create ''user'' ''A'' ''{"x":1}'', eventOf save ''user'' ''B'' ''{"x":2}'']
     (workingStore []) ''model'')) ''model/user/A'' = None\<close>
proof -
  have failed: \<open>snd (Reduce exampleDeps
     [eventOf create ''user'' ''A'' ''{"x":1}'', eventOf save ''user'' ''B'' ''{"x":2}'']
     (workingStore []) ''model'') = Inl errSavingNonExistentInstance\<close>
    by (simp add: example_defs)
  have \<open>Reduce exampleDeps
     [eventOf create ''user'' ''A'' ''{"x":1}'', eventOf save ''user'' ''B'' ''{"x":2}'']
     (workingStore []) ''model'' = (workingStore [], Inl errSavingNonExistentInstance)\<close>
    using failed by (rule Reduce_error_rolls_back)
  then show ?thesis by (simp add: workingStore_def)
qed

section \<open>Lifecycle of an entity\<close>

text \<open>
  In the three theorems of this section the event is processed after the events \<open>pre\<close>,
  which the open transaction \<open>txn\<close> has applied: \<open>view txn\<close> is the store at reduction
  time. The store's own failures are kept apart by the hypotheses on \<open>fault\<close>.
\<close>

text \<open>
  C5. A create event whose key is present at reduction time fails the call with
  \<^verbatim>\<open>errCantCreateExistingInstance\<close> and the datastore is left as it was; if the key is
  absent, the payload bytes are written verbatim as the value of the key.
\<close>

theorem Reduce_create:
  assumes "NewTransaction datastore = Inr txn0"
    and "reduceLoop d txn0 baseKey pre = Inr (txn, acts)"
    and "Type (Patch je) = create"
    and "key = ChildString (ChildString baseKey (ModelName je)) (ID je)"
    and "fault datastore (OpHas key) = None"
  shows "(view txn key \<noteq> None \<longrightarrow>
            Reduce d (pre @ PatchEvent je # post) datastore baseKey =
              (datastore, Inl errCantCreateExistingInstance)) \<and>
         (view txn key = None \<and> fault datastore (OpPut key) = None \<longrightarrow>
            reduceLoop d txn0 baseKey (pre @ [PatchEvent je]) =
              Inr (txn\<lparr>view := (view txn)(key \<mapsto> JSONPatch (Patch je))\<rparr>,
                   acts @ [\<lparr>r_Type = core_Create, r_Model = ModelName je, r_EntityID = ID je\<rparr>]) \<and>
            (fault datastore OpCommit = None \<longrightarrow>
               Reduce d (pre @ [PatchEvent je]) datastore baseKey =
                 (datastore\<lparr>entries := (view txn)(key \<mapsto> JSONPatch (Patch je))\<rparr>,
                  Inr (acts @ [\<lparr>r_Type = core_Create, r_Model = ModelName je,
                                 r_EntityID = ID je\<rparr>]))))"
proof -
  have f: "txn_fault txn = fault datastore"
    using assms(1,2) by (simp add: NewTransaction_Inr reduceLoop_txn_fault)
  have present: "reduceEvent d txn baseKey (PatchEvent je) = Inl errCantCreateExistingInstance"
    if "view txn key \<noteq> None"
    using that assms(3,4,5) f
    by (simp add: reduceEvent_def Let_def Has_def Model_def EntityID_def)
  have absent: "reduceEvent d txn baseKey (PatchEvent je) =
      Inr (txn\<lparr>view := (view txn)(key \<mapsto> JSONPatch (Patch je))\<rparr>,
           \<lparr>r_Type = core_Create, r_Model = ModelName je, r_EntityID = ID je\<rparr>)"
    if "view txn key = None" "fault datastore (OpPut key) = None"
    using that assms(3,4,5) f
    by (simp add: reduceEvent_def Let_def Has_def Put_def Model_def EntityID_def)
  show ?thesis
    using assms(1) present absent f
    by (simp add: Reduce_def Commit_def Discard_def reduceLoop_snoc [OF assms(2)])
qed

text \<open>
  Scenario A of the spec: a create on the empty store stores the body; a second create of
  the same entity fails and leaves the stored value.
\<close>

theorem Reduce_create_witness:
  \<open>Reduce exampleDeps [eventOf create ''user'' ''42'' ''{"a":1}''] (workingStore []) ''model''
   = ((workingStore [])\<lparr>entries := [''model/user/42'' \<mapsto> ''{"a":1}'']\<rparr>,
      Inr [\<lparr>r_Type = core_Create, r_Model = ''user'', r_EntityID = ''42''\<rparr>]) \<and>
   Reduce exampleDeps [eventOf create ''user'' ''42'' ''{"a":1}'']
     (workingStore [(''model/user/42'', ''{"a":1}'')]) ''model''
   = (workingStore [(''model/user/42'', ''{"a":1}'')], Inl errCantCreateExistingInstance)\<close>
proof -
  define je where \<open>je = \<lparr>Timestamp = 0, ID = ''42'', ModelName = ''user'',
    Patch = \<lparr>Type = create, op_EntityID = ''42'', JSONPatch = ''{"a":1}''\<rparr>\<rparr>\<close>
  have e: \<open>eventOf create ''user'' ''42'' ''{"a":1}'' = PatchEvent je\<close>
    by (simp add: eventOf_def je_def)
  have t: "Type (Patch je) = create"
    and k: "''model/user/42'' = ChildString (ChildString ''model'' (ModelName je)) (ID je)"
    by (simp_all add: je_def ChildString_def)
  have absent: "NewTransaction (workingStore []) = Inr \<lparr>view = Map.empty, txn_fault = (\<lambda>op. None)\<rparr>"
    by (simp add: NewTransaction_def workingStore_def)
  have present: \<open>NewTransaction (workingStore [(''model/user/42'', ''{"a":1}'')]) =
      Inr \<lparr>view = [''model/user/42'' \<mapsto> ''{"a":1}''], txn_fault = (\<lambda>op. None)\<rparr>\<close>
    by (simp add: NewTransaction_def workingStore_def)
  have f: "fault (workingStore kvs) op = None" for kvs op
    by (simp add: workingStore_def)
  have l: "reduceLoop exampleDeps txn ''model'' [] = Inr (txn, [])" for txn
    by simp
  from Reduce_create [OF absent l t k f, of "[]"]
    Reduce_create [OF present l t k f, of "[]"]
  show ?thesis
    by (simp add: e f je_def)
qed

text \<open>
  C6. A save event whose key is absent at reduction time fails the call with
  \<^verbatim>\<open>errSavingNonExistentInstance\<close> and the datastore is left as it was: no key is
  created; if the key is present, its value is replaced by what \<^verbatim>\<open>MergePatch\<close> makes of the
  stored value and the payload.
\<close>

theorem Reduce_save:
  assumes "NewTransaction datastore = Inr txn0"
    and "reduceLoop d txn0 baseKey pre = Inr (txn, acts)"
    and "Type (Patch je) = save"
    and "key = ChildString (ChildString baseKey (ModelName je)) (ID je)"
    and "fault datastore (OpGet key) = None"
  shows "(view txn key = None \<longrightarrow>
            Reduce d (pre @ PatchEvent je # post) datastore baseKey =
              (datastore, Inl errSavingNonExistentInstance)) \<and>
         (\<forall>v v'. view txn key = Some v \<and> MergePatch d v (JSONPatch (Patch je)) = Inr v' \<and>
              fault datastore (OpPut key) = None \<longrightarrow>
            reduceLoop d txn0 baseKey (pre @ [PatchEvent je]) =
              Inr (txn\<lparr>view := (view txn)(key \<mapsto> v')\<rparr>,
                   acts @ [\<lparr>r_Type = core_Save, r_Model = ModelName je, r_EntityID = ID je\<rparr>]) \<and>
            (fault datastore OpCommit = None \<longrightarrow>
               Reduce d (pre @ [PatchEvent je]) datastore baseKey =
                 (datastore\<lparr>entries := (view txn)(key \<mapsto> v')\<rparr>,
                  Inr (acts @ [\<lparr>r_Type = core_Save, r_Model = ModelName je,
                                 r_EntityID = ID je\<rparr>]))))"
proof -
  have f: "txn_fault txn = fault datastore"
    using assms(1,2) by (simp add: NewTransaction_Inr reduceLoop_txn_fault)
  have t: "Type (Patch je) \<noteq> create"
    using assms(3) by (simp add: create_def save_def)
  have missing: "reduceEvent d txn baseKey (PatchEvent je) = Inl errSavingNonExistentInstance"
    if "view txn key = None"
    using that assms(3,4,5) f t
    by (simp add: reduceEvent_def Let_def Get_def Model_def EntityID_def)
  have present: "reduceEvent d txn baseKey (PatchEvent je) =
      Inr (txn\<lparr>view := (view txn)(key \<mapsto> v')\<rparr>,
           \<lparr>r_Type = core_Save, r_Model = ModelName je, r_EntityID = ID je\<rparr>)"
    if "view txn key = Some v" "MergePatch d v (JSONPatch (Patch je)) = Inr v'"
      "fault datastore (OpPut key) = None" for v v'
    using that assms(3,4,5) f t
    by (simp add: reduceEvent_def Let_def Get_def Put_def Model_def EntityID_def)
  show ?thesis
    using assms(1) missing present f
    by (simp add: Reduce_def Commit_def Discard_def reduceLoop_snoc [OF assms(2)])
qed

text \<open>Scenario C of the spec, and a save of an entity that exists.\<close>

theorem Reduce_save_witness:
  \<open>Reduce exampleDeps [eventOf save ''user'' ''42'' ''{"b":null,"c":3}''] (workingStore []) ''model''
   = (workingStore [], Inl errSavingNonExistentInstance) \<and>
   Reduce exampleDeps [eventOf save ''user'' ''42'' ''{"b":null,"c":3}'']
     (workingStore [(''model/user/42'', ''{"a":1,"b":2}'')]) ''model''
   = ((workingStore [(''model/user/42'', ''{"a":1,"b":2}'')])
        \<lparr>entries := [''model/user/42'' \<mapsto> ''{"a":1,"c":3}'']\<rparr>,
      Inr [\<lparr>r_Type = core_Save, r_Model = ''user'', r_EntityID = ''42''\<rparr>])\<close>
proof -
  define je where \<open>je = \<lparr>Timestamp = 0, ID = ''42'', ModelName = ''user'',
    Patch = \<lparr>Type = save, op_EntityID = ''42'', JSONPatch = ''{"b":null,"c":3}''\<rparr>\<rparr>\<close>
  have e: \<open>eventOf save ''user'' ''42'' ''{"b":null,"c":3}'' = PatchEvent je\<close>
    by (simp add: eventOf_def je_def)
  have t: "Type (Patch je) = save"
    and k: "''model/user/42'' = ChildString (ChildString ''model'' (ModelName je)) (ID je)"
    by (simp_all add: je_def ChildString_def)
  have absent: "NewTransaction (workingStore []) = Inr \<lparr>view = Map.empty, txn_fault = (\<lambda>op. None)\<rparr>"
    by (simp add: NewTransaction_def workingStore_def)
  have present: \<open>NewTransaction (workingStore [(''model/user/42'', ''{"a":1,"b":2}'')]) =
      Inr \<lparr>view = [''model/user/42'' \<mapsto> ''{"a":1,"b":2}''], txn_fault = (\<lambda>op. None)\<rparr>\<close>
    by (simp add: NewTransaction_def workingStore_def)
  have f: "fault (workingStore kvs) op = None" for kvs op
    by (simp add: workingStore_def)
  have m: \<open>MergePatch exampleDeps ''{"a":1,"b":2}'' (JSONPatch (Patch je)) = Inr ''{"a":1,"c":3}''\<close>
    by (simp add: exampleDeps_def je_def)
  have l: "reduceLoop exampleDeps txn ''model'' [] = Inr (txn, [])" for txn
    by simp
  from Reduce_save [OF absent l t k f, of "[]"]
    Reduce_save [OF present l t k f, of "[]"] m
  show ?thesis
    by (simp add: e f je_def)
qed

text \<open>
  C8. A delete event removes the key and succeeds, whether or not the key is present; a
  delete of an absent key returns no error and leaves the datastore as it was.
\<close>

theorem Reduce_delete:
  assumes "NewTransaction datastore = Inr txn0"
    and "reduceLoop d txn0 baseKey pre = Inr (txn, acts)"
    and "Type (Patch je) = delete"
    and "key = ChildString (ChildString baseKey (ModelName je)) (ID je)"
    and "fault datastore (OpDelete key) = None"
  shows "reduceLoop d txn0 baseKey (pre @ [PatchEvent je]) =
           Inr (txn\<lparr>view := (view txn)(key := None)\<rparr>,
                acts @ [\<lparr>r_Type = core_Delete, r_Model = ModelName je, r_EntityID = ID je\<rparr>]) \<and>
         (fault datastore OpCommit = None \<longrightarrow>
            Reduce d (pre @ [PatchEvent je]) datastore baseKey =
              (datastore\<lparr>entries := (view txn)(key := None)\<rparr>,
               Inr (acts @ [\<lparr>r_Type = core_Delete, r_Model = ModelName je,
                              r_EntityID = ID je\<rparr>])) \<and>
            (pre = [] \<and> entries datastore key = None \<longrightarrow>
               Reduce d [PatchEvent je] datastore baseKey =
                 (datastore,
                  Inr [\<lparr>r_Type = core_Delete, r_Model = ModelName je, r_EntityID = ID je\<rparr>])))"
proof -
  have f: "txn_fault txn = fault datastore"
    using assms(1,2) by (simp add: NewTransaction_Inr reduceLoop_txn_fault)
  have t: "Type (Patch je) \<noteq> create" "Type (Patch je) \<noteq> save"
    using assms(3) by (simp_all add: create_def save_def delete_def)
  have step: "reduceEvent d txn baseKey (PatchEvent je) =
      Inr (txn\<lparr>view := (view txn)(key := None)\<rparr>,
           \<lparr>r_Type = core_Delete, r_Model = ModelName je, r_EntityID = ID je\<rparr>)"
    using assms(3,4,5) f t
    by (simp add: reduceEvent_def Let_def Delete_def Model_def EntityID_def)
  have loop: "reduceLoop d txn0 baseKey (pre @ [PatchEvent je]) =
           Inr (txn\<lparr>view := (view txn)(key := None)\<rparr>,
                acts @ [\<lparr>r_Type = core_Delete, r_Model = ModelName je, r_EntityID = ID je\<rparr>])"
    using step by (simp add: reduceLoop_snoc [OF assms(2)])
  have same: "datastore\<lparr>entries := (view txn)(key := None)\<rparr> = datastore"
    if "pre = []" "entries datastore key = None"
  proof -
    have "txn = txn0" using assms(2) that(1) by simp
    then have "view txn = entries datastore"
      using assms(1) by (auto simp: NewTransaction_def split: option.splits)
    moreover have "(entries datastore)(key := None) = entries datastore"
      using that(2) by (simp add: fun_upd_idem)
    ultimately show ?thesis by simp
  qed
  have nil: "acts = []" if "pre = []"
    using assms(2) that by simp
  have whole: "Reduce d (pre @ [PatchEvent je]) datastore baseKey =
      (datastore\<lparr>entries := (view txn)(key := None)\<rparr>,
       Inr (acts @ [\<lparr>r_Type = core_Delete, r_Model = ModelName je, r_EntityID = ID je\<rparr>]))"
    if "fault datastore OpCommit = None"
    using assms(1) loop f that by (simp add: Reduce_def Commit_def Discard_def)
  show ?thesis
  proof (intro conjI impI)
    show "reduceLoop d txn0 baseKey (pre @ [PatchEvent je]) =
           Inr (txn\<lparr>view := (view txn)(key := None)\<rparr>,
                acts @ [\<lparr>r_Type = core_Delete, r_Model = ModelName je, r_EntityID = ID je\<rparr>])"
      by (rule loop)
  next
    assume "fault datastore OpCommit = None"
    then show "Reduce d (pre @ [PatchEvent je]) datastore baseKey =
      (datastore\<lparr>entries := (view txn)(key := None)\<rparr>,
       Inr (acts @ [\<lparr>r_Type = core_Delete, r_Model = ModelName je, r_EntityID = ID je\<rparr>]))"
      by (rule whole)
  next
    assume c: "fault datastore OpCommit = None" and a: "pre = [] \<and> entries datastore key = None"
    from whole [OF c] a nil same
    show "Reduce d [PatchEvent je] datastore baseKey =
        (datastore, Inr [\<lparr>r_Type = core_Delete, r_Model = ModelName je, r_EntityID = ID je\<rparr>])"
      by simp
  qed
qed

text \<open>Scenario D of the spec, and a delete of an entity that exists.\<close>

theorem Reduce_delete_witness:
  \<open>Reduce exampleDeps [eventOf delete ''user'' ''42'' []] (workingStore []) ''model''
   = (workingStore [], Inr [\<lparr>r_Type = core_Delete, r_Model = ''user'', r_EntityID = ''42''\<rparr>]) \<and>
   Reduce exampleDeps [eventOf delete ''user'' ''42'' []]
     (workingStore [(''model/user/42'', ''{"a":1}'')]) ''model''
   = ((workingStore [(''model/user/42'', ''{"a":1}'')])
        \<lparr>entries := [''model/user/42'' \<mapsto> ''{"a":1}''](''model/user/42'' := None)\<rparr>,
      Inr [\<lparr>r_Type = core_Delete, r_Model = ''user'', r_EntityID = ''42''\<rparr>])\<close>
proof -
  define je where \<open>je = \<lparr>Timestamp = 0, ID = ''42'', ModelName = ''user'',
    Patch = \<lparr>Type = delete, op_EntityID = ''42'', JSONPatch = []\<rparr>\<rparr>\<close>
  have e: \<open>eventOf delete ''user'' ''42'' [] = PatchEvent je\<close>
    by (simp add: eventOf_def je_def)
  have t: "Type (Patch je) = delete"
    and k: "''model/user/42'' = ChildString (ChildString ''model'' (ModelName je)) (ID je)"
    by (simp_all add: je_def ChildString_def)
  have absent: "NewTransaction (workingStore []) = Inr \<lparr>view = Map.empty, txn_fault = (\<lambda>op. None)\<rparr>"
    by (simp add: NewTransaction_def workingStore_def)
  have present: \<open>NewTransaction (workingStore [(''model/user/42'', ''{"a":1}'')]) =
      Inr \<lparr>view = [''model/user/42'' \<mapsto> ''{"a":1}''], txn_fault = (\<lambda>op. None)\<rparr>\<close>
    by (simp add: NewTransaction_def workingStore_def)
  have f: "fault (workingStore kvs) op = None" for kvs op
    by (simp add: workingStore_def)
  have n: "entries (workingStore []) ''model/user/42'' = None"
    by (simp add: workingStore_def)
  have l: "reduceLoop exampleDeps txn ''model'' [] = Inr (txn, [])" for txn
    by simp
  from Reduce_delete [OF absent l t k f]
    Reduce_delete [OF present l t k f] n
  show ?thesis
    by (simp add: e f je_def workingStore_def)
qed

section \<open>Outcome records of a successful call\<close>

text \<open>
  C7. When \<^verbatim>\<open>Reduce\<close> succeeds, every event was applied in the order given and the
  transaction was committed; the actions returned are one per event, in the order of the
  events, the i-th with the kind, model name and entity of the i-th event.
\<close>

theorem Reduce_success_actions:
  "Reduce d events datastore baseKey = (datastore', Inr actions) \<Longrightarrow>
     list_all2 outcomeFor events actions \<and>
     (\<exists>txn txn'. NewTransaction datastore = Inr txn \<and>
        reduceLoop d txn baseKey events = Inr (txn', actions) \<and>
        datastore' = datastore\<lparr>entries := view txn'\<rparr>)"
  by (auto simp: Reduce_def Commit_def Discard_def split: sum.splits prod.splits option.splits
      dest: reduceLoop_outcomes)

text \<open>A create, a save and a delete in one call.\<close>

theorem Reduce_success_actions_witness:
  \<open>snd (Reduce exampleDeps
     [eventOf create ''user'' ''42'' ''{"a":1,"b":2}'',
      eventOf save ''user'' ''42'' ''{"b":null,"c":3}'',
      eventOf delete ''user'' ''7'' []]
     (workingStore []) ''model'')
   = Inr [\<lparr>r_Type = core_Create, r_Model = ''user'', r_EntityID = ''42''\<rparr>,
          \<lparr>r_Type = core_Save, r_Model = ''user'', r_EntityID = ''42''\<rparr>,
          \<lparr>r_Type = core_Delete, r_Model = ''user'', r_EntityID = ''7''\<rparr>] \<and>
   list_all2 outcomeFor
     [eventOf create ''user'' ''42'' ''{"a":1,"b":2}'',
      eventOf save ''user'' ''42'' ''{"b":null,"c":3}'',
      eventOf delete ''user'' ''7'' []]
     [\<lparr>r_Type = core_Create, r_Model = ''user'', r_EntityID = ''42''\<rparr>,
      \<lparr>r_Type = core_Save, r_Model = ''user'', r_EntityID = ''42''\<rparr>,
      \<lparr>r_Type = core_Delete, r_Model = ''user'', r_EntityID = ''7''\<rparr>] \<and>
   entries (fst (Reduce exampleDeps
     [eventOf create ''user'' ''42'' ''{"a":1,"b":2}'',
      eventOf save ''user'' ''42'' ''{"b":null,"c":3}'',
      eventOf delete ''user'' ''7'' []]
     (workingStore []) ''model'')) ''model/user/42'' = Some ''{"a":1,"c":3}''\<close>
  (is "snd ?r = Inr ?acts \<and> list_all2 outcomeFor ?evs ?acts \<and> _")
proof -
  have s: "snd ?r = Inr ?acts"
    by (simp add: example_defs)
  then have "?r = (fst ?r, Inr ?acts)"
    by (simp add: prod_eq_iff)
  then have "list_all2 outcomeFor ?evs ?acts"
    using Reduce_success_actions by blast
  moreover have \<open>entries (fst ?r) ''model/user/42'' = Some ''{"a":1,"c":3}''\<close>
    by (simp add: example_defs)
  ultimately show ?thesis using s by simp
qed

section \<open>Create: translation failures\<close>


lemma createLoop_first_Panic:
  "\<forall>a' \<in> set pre. \<exists>op. translate d jsonMode a' = Ok op \<Longrightarrow>
   translate d jsonMode a = Panic msg \<Longrightarrow>
   createLoop d jsonMode now i (pre @ a # post) = Panic msg"
  by (induction pre arbitrary: i) auto

text \<open>The evaluation rules of the examples of \<^verbatim>\<open>Create\<close>.\<close>

lemmas create_defs =
  Create_def translate_def createEvent_def saveEvent_def deleteEvent_def exampleDeps_def
  actionOf_def fixedClock_def Let_def

text \<open>A batch that translates: the events carry the clock's readings and the operations.\<close>

lemma Create_ok_example:
  \<open>Create exampleDeps True fixedClock
     [actionOf core_Create ''user'' ''A'' INil (IStringPtr (Some ''{"a":1}'')),
      actionOf core_Save ''user'' ''B'' (IBytes ''{"a":1,"b":2}'') (IStringPtr (Some ''{"a":1,"c":3}'')),
      actionOf core_Delete ''user'' ''C'' INil INil]
   = Ok ([PatchEvent \<lparr>Timestamp = 0, ID = ''A'', ModelName = ''user'',
                 Patch = \<lparr>Type = create, op_EntityID = ''A'', JSONPatch = ''{"a":1}''\<rparr>\<rparr>,
          PatchEvent \<lparr>Timestamp = 1, ID = ''B'', ModelName = ''user'',
                 Patch = \<lparr>Type = save, op_EntityID = ''B'', JSONPatch = ''{"b":null,"c":3}''\<rparr>\<rparr>,
          PatchEvent \<lparr>Timestamp = 2, ID = ''C'', ModelName = ''user'',
                 Patch = \<lparr>Type = delete, op_EntityID = ''C'', JSONPatch = []\<rparr>\<rparr>],
          ''{"a":1}{"b":null,"c":3}'')\<close>
  by (simp add: create_defs)




text \<open>
  C4 as stated fails. On a batch of one action whose type is none of create, save and
  delete, \<^verbatim>\<open>Create\<close> hands no error to its caller: the default branch of its switch
  panics.
\<close>

theorem Create_unknown_action_counterexample:
  "Create exampleDeps True fixedClock [actionOf (core_Other 3) ''user'' ''A'' INil INil]
     = Panic ''unkown action type'' \<and>
   \<not> returnsError (Create exampleDeps True fixedClock
       [actionOf (core_Other 3) ''user'' ''A'' INil INil])"
  by (simp add: create_defs returnsError_def)

text \<open>
  C4, amended. When \<^verbatim>\<open>Create\<close> reaches an action whose type is none of create, save and
  delete (the actions before it translate), it panics with \<^verbatim>\<open>unkown action type\<close>: the call
  terminates, which no data error makes it do, and the caller receives no error result, no
  events and no envelope.
\<close>

theorem Create_unknown_action_panics:
  assumes "\<forall>a' \<in> set pre. \<exists>op. translate d jsonMode a' = Ok op"
    and "a_Type a = core_Other k"
  shows "Create d jsonMode now (pre @ a # post) = Panic ''unkown action type'' \<and>
         \<not> returnsError (Create d jsonMode now (pre @ a # post))"
proof -
  have "translate d jsonMode a = Panic ''unkown action type''"
    using assms(2) by (simp add: translate_def)
  from createLoop_first_Panic [OF assms(1) this]
  show ?thesis by (simp add: Create_def returnsError_def)
qed

text \<open>A batch whose second action has an unrecognised type.\<close>

theorem Create_unknown_action_panics_witness:
  \<open>Create exampleDeps True fixedClock
     [actionOf core_Create ''user'' ''A'' INil (IStringPtr (Some ''{"a":1}'')),
      actionOf (core_Other 3) ''user'' ''B'' INil INil,
      actionOf core_Delete ''user'' ''C'' INil INil]
   = Panic ''unkown action type''\<close>
proof -
  have pre: \<open>\<forall>a' \<in> set [actionOf core_Create ''user'' ''A'' INil (IStringPtr (Some ''{"a":1}''))].
      \<exists>op. translate exampleDeps True a' = Ok op\<close>
    by (simp add: create_defs)
  have kind: "a_Type (actionOf (core_Other 3) ''user'' ''B'' INil INil) = core_Other 3"
    by (simp add: actionOf_def)
  from Create_unknown_action_panics [OF pre kind,
      of fixedClock "[actionOf core_Delete ''user'' ''C'' INil INil]"]
  show ?thesis by simp
qed

section \<open>Encode and decode\<close>

text \<open>
  The package's own part of the round trip: \<^verbatim>\<open>Create\<close> hands to the encoder the events it
  returns, and \<^verbatim>\<open>EventsFromBytes\<close> returns the decoder's list as it is. Whether the
  decoder gives back what the encoder was given is decided by the third-party codec.
\<close>

lemma EventsFromBytes_Create:
  assumes "Create d jsonMode now actions = Ok (events, n)"
    and "\<And>revents. WrapObject d revents = Inr n \<Longrightarrow> DecodeInto d n = Inr revents"
  shows "EventsFromBytes d n = Inr events"
proof -
  from assms(1) obtain patches where
    w: "WrapObject d \<lparr>Patches = patches\<rparr> = Inr n" and e: "events = map PatchEvent patches"
    by (auto simp: Create_def split: outcome.splits sum.splits)
  from w have "DecodeInto d n = Inr \<lparr>Patches = patches\<rparr>"
    by (rule assms(2))
  with e show ?thesis
    by (simp add: EventsFromBytes_def)
qed

section \<open>Time: big-endian bytes\<close>

lemma unat_byte_of_nat: "unat (of_nat n :: 8 word) = n mod 256"
  by (simp add: unat_of_nat)

lemma beBytes_8:
  "beBytes 8 n =
      [of_nat (n div 2 ^ 56), of_nat (n div 2 ^ 48), of_nat (n div 2 ^ 40), of_nat (n div 2 ^ 32),
       of_nat (n div 2 ^ 24), of_nat (n div 2 ^ 16), of_nat (n div 2 ^ 8), of_nat n]"
proof -
  have "(8::nat) = Suc (Suc (Suc (Suc (Suc (Suc (Suc (Suc 0)))))))"
    by arith
  then have "beBytes 8 n = beBytes (Suc (Suc (Suc (Suc (Suc (Suc (Suc (Suc 0)))))))) n"
    by (rule arg_cong)
  then show ?thesis
    by simp
qed

lemma Time_beBytes: "Time je = beBytes 8 (unat (Timestamp je))"
proof -
  have b: "(ucast (drop_bit s t) :: 8 word) = of_nat (unat t div 2 ^ s)" for s and t :: "64 word"
  proof -
    have "unat (ucast (drop_bit s t) :: 8 word) = take_bit 8 (drop_bit s (unat t))"
      by (simp add: unsigned_ucast_eq unat_drop_bit_eq)
    also have "\<dots> = unat t div 2 ^ s mod 256"
      by (simp add: take_bit_eq_mod drop_bit_eq_div)
    also have "\<dots> = unat (of_nat (unat t div 2 ^ s) :: 8 word)"
      by (simp add: unat_byte_of_nat)
    finally show ?thesis
      by (simp only: word_unat_eq_iff)
  qed
  have c: "(ucast t :: 8 word) = of_nat (unat t)" for t :: "64 word"
    using b [of 0 t] by simp
  have b': "(of_nat (unat (drop_bit s t)) :: 8 word) = of_nat (unat t div 2 ^ s)"
    for s and t :: "64 word"
    using b [of s t] by (simp only: c)
  show ?thesis
    unfolding Time_def Let_def beBytes_8 by (simp only: c b')
qed

lemma bigEndianValue_beBytes:
  "foldl (\<lambda>acc b. 256 * acc + unat b) a (beBytes k n) = a * 256 ^ k + n mod 256 ^ k"
proof (induction k arbitrary: a)
  case 0
  then show ?case by simp
next
  case (Suc k)
  have "n mod (256 ^ k * 256) = 256 ^ k * (n div 256 ^ k mod 256) + n mod 256 ^ k"
    by (rule mod_mult2_eq)
  then have step: "n mod 256 ^ Suc k = 256 ^ k * (n div 256 ^ k mod 256) + n mod 256 ^ k"
    by (simp add: mult.commute)
  have "foldl (\<lambda>acc b. 256 * acc + unat b) a (beBytes (Suc k) n) =
      foldl (\<lambda>acc b. 256 * acc + unat b) (256 * a + n div 256 ^ k mod 256) (beBytes k n)"
    by (simp add: unat_byte_of_nat)
  also have "\<dots> = (256 * a + n div 256 ^ k mod 256) * 256 ^ k + n mod 256 ^ k"
    by (rule Suc.IH)
  also have "\<dots> = a * 256 ^ Suc k + (256 ^ k * (n div 256 ^ k mod 256) + n mod 256 ^ k)"
    by (simp add: algebra_simps)
  finally show ?case
    by (simp only: step)
qed

lemma bytesLessEq_beBytes:
  "m mod 256 ^ k \<le> n mod 256 ^ k \<Longrightarrow> bytesLessEq (beBytes k m) (beBytes k n)"
proof (induction k)
  case 0
  then show ?case by simp
next
  case (Suc k)
  let ?x = "of_nat (m div 256 ^ k) :: 8 word" and ?y = "of_nat (n div 256 ^ k) :: 8 word"
  have split: "j mod 256 ^ Suc k = 256 ^ k * (j div 256 ^ k mod 256) + j mod 256 ^ k" for j :: nat
  proof -
    have "j mod (256 ^ k * 256) = 256 ^ k * (j div 256 ^ k mod 256) + j mod 256 ^ k"
      by (rule mod_mult2_eq)
    then show ?thesis by (simp add: mult.commute)
  qed
  have ux: "unat ?x = m div 256 ^ k mod 256" and uy: "unat ?y = n div 256 ^ k mod 256"
    by (simp_all add: unat_byte_of_nat)
  have low: "j mod 256 ^ k < 256 ^ k" for j :: nat
    by simp
  show ?case
  proof (cases "unat ?x < unat ?y")
    case True
    then have "?x < ?y" by (simp add: word_less_nat_alt)
    then show ?thesis by simp
  next
    case False
    have "unat ?x \<le> unat ?y"
    proof (rule ccontr)
      assume "\<not> unat ?x \<le> unat ?y"
      then have "unat ?y + 1 \<le> unat ?x" by simp
      then have "256 ^ k * (unat ?y + 1) \<le> 256 ^ k * unat ?x" by (rule mult_le_mono2)
      then have "256 ^ k * unat ?y + 256 ^ k \<le> 256 ^ k * unat ?x" by (simp only: distrib_left mult_1_right)
      moreover have "n mod 256 ^ Suc k < 256 ^ k * unat ?y + 256 ^ k"
        using low [of n] by (simp only: split [of n] uy)
      moreover have "256 ^ k * unat ?x \<le> m mod 256 ^ Suc k"
        by (simp only: split [of m] ux)
      ultimately show False using Suc.prems by linarith
    qed
    with False have eq: "unat ?x = unat ?y" by simp
    then have "?x = ?y" by (simp add: word_unat_eq_iff)
    moreover have "m mod 256 ^ k \<le> n mod 256 ^ k"
    proof -
      have "256 ^ k * (m div 256 ^ k mod 256) + m mod 256 ^ k
          \<le> 256 ^ k * (n div 256 ^ k mod 256) + n mod 256 ^ k"
        using Suc.prems by (simp only: split)
      moreover have "m div 256 ^ k mod 256 = n div 256 ^ k mod 256"
        using eq by (simp only: ux uy)
      ultimately show ?thesis by simp
    qed
    ultimately show ?thesis using Suc.IH by simp
  qed
qed

text \<open>
  C10. \<^verbatim>\<open>Time\<close> returns eight bytes, which denote the timestamp's \<^verbatim>\<open>UnixNano\<close> value (the
  \<^verbatim>\<open>int64\<close> read as an unsigned 64-bit number) in big-endian order; of two events with non-negative
  timestamps, the one that is not later has the byte string that is lexicographically
  not greater.
\<close>

theorem Time_big_endian_sorted:
  "length (Time je) = 8 \<and>
   bigEndianValue (Time je) = unat (Timestamp je) \<and>
   (0 \<le> sint (Timestamp je) \<and> 0 \<le> sint (Timestamp je') \<and>
    sint (Timestamp je) \<le> sint (Timestamp je') \<longrightarrow>
      bytesLessEq (Time je) (Time je'))"
proof (intro conjI impI)
  show "length (Time je) = 8"
    by (simp add: Time_def Let_def)
next
  have "unat (Timestamp je) < 256 ^ 8"
    using unsigned_less [of "Timestamp je", where ?'a = nat] by simp
  then show "bigEndianValue (Time je) = unat (Timestamp je)"
    by (simp add: bigEndianValue_def Time_beBytes bigEndianValue_beBytes)
next
  assume a: "0 \<le> sint (Timestamp je) \<and> 0 \<le> sint (Timestamp je') \<and>
    sint (Timestamp je) \<le> sint (Timestamp je')"
  have nonneg: "sint w = uint w" if "0 \<le> sint w" for w :: "64 word"
  proof -
    have "sint w < 2 ^ 64" using sint_less [of w] by simp
    with that have "take_bit 64 (sint w) = sint w" by (simp add: take_bit_int_eq_self)
    then show ?thesis by (simp add: uint_sint)
  qed
  from a have "sint (Timestamp je) = uint (Timestamp je)"
    and "sint (Timestamp je') = uint (Timestamp je')"
    by (simp_all add: nonneg)
  with a have "uint (Timestamp je) \<le> uint (Timestamp je')"
    by simp
  then have "unat (Timestamp je) \<le> unat (Timestamp je')"
    by (simp add: word_le_def [symmetric] word_le_nat_alt)
  moreover have "unat w mod 256 ^ 8 = unat w" for w :: "64 word"
    using unsigned_less [of w, where ?'a = nat] by simp
  ultimately show "bytesLessEq (Time je) (Time je')"
    by (simp add: Time_beBytes bytesLessEq_beBytes)
qed

text \<open>Timestamps on both sides of a byte boundary.\<close>

theorem Time_big_endian_sorted_witness:
  "Time \<lparr>Timestamp = 255, ID = ''A'', ModelName = ''user'',
          Patch = \<lparr>Type = create, op_EntityID = ''A'', JSONPatch = ''{}''\<rparr>\<rparr>
     = [0, 0, 0, 0, 0, 0, 0, 255] \<and>
   Time \<lparr>Timestamp = 256, ID = ''A'', ModelName = ''user'',
          Patch = \<lparr>Type = delete, op_EntityID = ''A'', JSONPatch = []\<rparr>\<rparr>
     = [0, 0, 0, 0, 0, 0, 1, 0] \<and>
   bytesLessEq
     (Time \<lparr>Timestamp = 255, ID = ''A'', ModelName = ''user'',
          Patch = \<lparr>Type = create, op_EntityID = ''A'', JSONPatch = ''{}''\<rparr>\<rparr>)
     (Time \<lparr>Timestamp = 256, ID = ''A'', ModelName = ''user'',
          Patch = \<lparr>Type = delete, op_EntityID = ''A'', JSONPatch = []\<rparr>\<rparr>)"
  (is "Time ?a = _ \<and> Time ?b = _ \<and> _")
proof -
  have "0 \<le> sint (Timestamp ?a) \<and> 0 \<le> sint (Timestamp ?b) \<and>
      sint (Timestamp ?a) \<le> sint (Timestamp ?b)"
    by simp
  with Time_big_endian_sorted [of ?a ?b] have "bytesLessEq (Time ?a) (Time ?b)"
    by blast
  moreover have "Time ?a = [0, 0, 0, 0, 0, 0, 0, 255]"
    by (simp add: Time_def)
  moreover have "Time ?b = [0, 0, 0, 0, 0, 0, 1, 0]"
    by (simp add: Time_def)
  ultimately show ?thesis by blast
qed

section \<open>Merge patch: applying a diff\<close>

lemma fmlookup_applyFields:
  "fmlookup (applyFields (fmmap (\<lambda>v. (v, applyPatch v)) pm) bm) k =
     (case fmlookup pm k of
        None \<Rightarrow> fmlookup bm k
      | Some v \<Rightarrow> if v = JNull then None else Some (applyPatch v (fmlookup bm k)))"
  by (cases "fmlookup pm k") (simp_all add: applyFields_def fmdomI fmdom_notI)

lemma fmlookup_diffFields:
  "fmlookup (diffFields (fmmap (\<lambda>p. (p, diffFrom p)) pm) cm) k =
     (case fmlookup cm k of
        None \<Rightarrow> (case fmlookup pm k of None \<Rightarrow> None | Some p \<Rightarrow> Some JNull)
      | Some c \<Rightarrow>
          (case fmlookup pm k of
             None \<Rightarrow> Some c
           | Some p \<Rightarrow> if p = c then None else Some (diffFrom p c)))"
  by (cases "fmlookup cm k"; cases "fmlookup pm k") (simp_all add: diffFields_def fmdomI fmdom_notI)

lemma diffFrom_not_null: "c \<noteq> JNull \<Longrightarrow> diffFrom p c \<noteq> JNull"
  by (cases p; cases c) simp_all

lemma nullFree_not_null: "nullFree c \<Longrightarrow> c \<noteq> JNull"
  by auto

lemma applyPatch_fresh:
  "nullFree c \<Longrightarrow> fieldsOf base = fmempty \<Longrightarrow> applyPatch c base = c"
proof (induction c arbitrary: base)
  case (JObj cm)
  have "fmlookup (applyFields (fmmap (\<lambda>v. (v, applyPatch v)) cm) fmempty) k = fmlookup cm k" for k
  proof (cases "fmlookup cm k")
    case None
    then show ?thesis by (simp add: fmlookup_applyFields)
  next
    case (Some v)
    then have "v \<in> fmran' cm" by (rule fmran'I)
    moreover have "nullFree v" using JObj.prems(1) Some by (auto simp: fmpred_iff)
    moreover have "fieldsOf None = fmempty" by (simp add: fieldsOf_def)
    ultimately have "applyPatch v None = v" by (rule JObj.IH)
    with Some \<open>nullFree v\<close> show ?thesis
      by (auto simp: fmlookup_applyFields)
  qed
  then have "applyFields (fmmap (\<lambda>v. (v, applyPatch v)) cm) fmempty = cm"
    by (rule fmap_ext)
  with JObj.prems(2) show ?case by simp
qed simp_all

lemma apply_diff_value:
  "nullFree c \<Longrightarrow> applyPatch (diffFrom p c) (Some p) = c"
proof (induction c arbitrary: p)
  case (JObj cm)
  show ?case
  proof (cases p)
    case p: (JObj pm)
    let ?dm = "diffFields (fmmap (\<lambda>p. (p, diffFrom p)) pm) cm"
    have "fmlookup (applyFields (fmmap (\<lambda>v. (v, applyPatch v)) ?dm) pm) k = fmlookup cm k" for k
    proof (cases "fmlookup cm k")
      case None
      then show ?thesis
        by (simp add: fmlookup_applyFields fmlookup_diffFields split: option.splits)
    next
      case (Some c')
      then have ran: "c' \<in> fmran' cm" by (rule fmran'I)
      have nf: "nullFree c'" using \<open>nullFree (JObj cm)\<close> Some by (auto simp: fmpred_iff)
      show ?thesis
      proof (cases "fmlookup pm k")
        case None
        have "applyPatch c' None = c'"
          using nf by (rule applyPatch_fresh) (simp add: fieldsOf_def)
        with Some None nf show ?thesis
          by (auto simp: fmlookup_applyFields fmlookup_diffFields)
      next
        case (Some p')
        have "applyPatch (diffFrom p' c') (Some p') = c'"
          using ran nf by (rule JObj.IH)
        moreover have "diffFrom p' c' \<noteq> JNull"
          using nf by (intro diffFrom_not_null nullFree_not_null)
        ultimately show ?thesis
          using Some \<open>fmlookup cm k = Some c'\<close>
          by (simp add: fmlookup_applyFields fmlookup_diffFields)
      qed
    qed
    then have "applyFields (fmmap (\<lambda>v. (v, applyPatch v)) ?dm) pm = cm"
      by (rule fmap_ext)
    with p show ?thesis by (simp add: fieldsOf_def)
  next
    case JNull
    with JObj.prems show ?thesis
      using applyPatch_fresh [of "JObj cm" "Some JNull"] by (simp add: fieldsOf_def)
  next
    case (JBool b)
    with JObj.prems show ?thesis
      using applyPatch_fresh [of "JObj cm" "Some (JBool b)"] by (simp add: fieldsOf_def)
  next
    case (JNum n)
    with JObj.prems show ?thesis
      using applyPatch_fresh [of "JObj cm" "Some (JNum n)"] by (simp add: fieldsOf_def)
  next
    case (JStr s)
    with JObj.prems show ?thesis
      using applyPatch_fresh [of "JObj cm" "Some (JStr s)"] by (simp add: fieldsOf_def)
  next
    case (JArr xs)
    with JObj.prems show ?thesis
      using applyPatch_fresh [of "JObj cm" "Some (JArr xs)"] by (simp add: fieldsOf_def)
  qed
next
  case JNull
  then show ?case by simp
next
  case (JBool b)
  show ?case by (cases p) simp_all
next
  case (JNum n)
  show ?case by (cases p) simp_all
next
  case (JStr s)
  show ?case by (cases p) simp_all
next
  case (JArr xs)
  show ?case by (cases p) simp_all
qed

text \<open>
  C2 as stated fails. A field of the current object whose value is null differs from the
  previous object, so \<open>Diff\<close> maps it to null, and \<open>Apply\<close> reads a null in a patch as the
  removal of the field: the round trip loses the field.
\<close>

theorem Apply_Diff_counterexample:
  "Diff (JObj fmempty) (JObj (fmap_of_list [(''a'', JNull)]))
     = JObj (fmap_of_list [(''a'', JNull)]) \<and>
   Apply (JObj fmempty) (Diff (JObj fmempty) (JObj (fmap_of_list [(''a'', JNull)])))
     = JObj fmempty \<and>
   Apply (JObj fmempty) (Diff (JObj fmempty) (JObj (fmap_of_list [(''a'', JNull)])))
     \<noteq> JObj (fmap_of_list [(''a'', JNull)])"
  by code_simp

text \<open>
  C2, amended. For JSON objects \<open>P\<close> and \<open>C\<close>, where \<open>C\<close> holds no null, applying to \<open>P\<close> the
  diff of \<open>P\<close> against \<open>C\<close> gives \<open>C\<close>. Objects are finite maps, so the equality is
  structural and blind to field order.
\<close>

theorem Apply_Diff_nullFree:
  "nullFree (JObj cm) \<Longrightarrow> Apply (JObj pm) (Diff (JObj pm) (JObj cm)) = JObj cm"
  unfolding Apply_def Diff_def by (rule apply_diff_value)

text \<open>Scenario B of the spec.\<close>

theorem Apply_Diff_nullFree_witness:
  "nullFree (JObj (fmap_of_list [(''a'', JNum 1), (''c'', JNum 3)])) \<and>
   Diff (JObj (fmap_of_list [(''a'', JNum 1), (''b'', JNum 2)]))
        (JObj (fmap_of_list [(''a'', JNum 1), (''c'', JNum 3)]))
     = JObj (fmap_of_list [(''b'', JNull), (''c'', JNum 3)]) \<and>
   Apply (JObj (fmap_of_list [(''a'', JNum 1), (''b'', JNum 2)]))
     (Diff (JObj (fmap_of_list [(''a'', JNum 1), (''b'', JNum 2)]))
        (JObj (fmap_of_list [(''a'', JNum 1), (''c'', JNum 3)])))
     = JObj (fmap_of_list [(''a'', JNum 1), (''c'', JNum 3)])"
proof -
  have nf: "nullFree (JObj (fmap_of_list [(''a'', JNum 1), (''c'', JNum 3)]))"
    by code_simp
  have d: "Diff (JObj (fmap_of_list [(''a'', JNum 1), (''b'', JNum 2)]))
        (JObj (fmap_of_list [(''a'', JNum 1), (''c'', JNum 3)]))
     = JObj (fmap_of_list [(''b'', JNull), (''c'', JNum 3)])"
    by code_simp
  from nf d Apply_Diff_nullFree [OF nf] show ?thesis by blast
qed

end
